theory Spec2Isabelle
  imports Main
begin

section \<open>Python values, exceptions and objects\<close>

text \<open>
  The repository holds two pattern examples: the metaclass \<^verbatim>\<open>Singleton\<close> of
  \<^verbatim>\<open>creational_patterns/singleton/naiveSingleton.py\<close> and the two currency factories of
  \<^verbatim>\<open>creational_patterns/factory_method/src/factory_method.py\<close>. The embedding is
  state passing: a function of the source takes the process state and returns its outcome
  (an exception on the left, a value on the right) together with the state it leaves.
\<close>

type_synonym ref = nat

datatype pyval = PyNone | PyInt int | PyStr string | PyRef ref

text \<open>The pack \<^verbatim>\<open>*args, **kwds\<close> of a call.\<close>

record call_args =
  args :: "pyval list"
  kwds :: "(string \<times> pyval) list"

definition no_args :: call_args where
  "no_args = \<lparr>args = [], kwds = []\<rparr>"

definition has_args :: "call_args \<Rightarrow> bool" where
  "has_args a = (args a \<noteq> [] \<or> kwds a \<noteq> [])"

datatype exn = KeyError | TypeError | RecursionError | Raised string

text \<open>
  A reference is what \<^verbatim>\<open>id(obj)\<close> and \<^verbatim>\<open>is\<close> compare. An object has its class
  and its attributes.
\<close>

record 'k pyobject =
  ob_type :: 'k
  ob_dict :: "(string \<times> pyval) list"

text \<open>
  The heap holds the objects allocated so far, the object with reference \<open>r\<close> at index
  \<open>r\<close>. The field \<open>constructions\<close> is the side-effect marker of the constructors: one
  entry for every run of a constructor, with the class, the arguments and the outcome, in
  the order in which the runs end.
\<close>

record 'k heap =
  objects :: "'k pyobject list"
  constructions :: "('k \<times> call_args \<times> (exn + ref)) list"

text \<open>
  The process state: the class attribute \<^verbatim>\<open>Singleton._instance\<close> (line 16), one
  dictionary keyed by the class, and the heap.
\<close>

record 'k process =
  Singleton_instance :: "'k \<rightharpoonup> ref"
  heap :: "'k heap"

definition init_process :: "'k process" where
  "init_process = \<lparr>Singleton_instance = Map.empty, heap = \<lparr>objects = [], constructions = []\<rparr>\<rparr>"

text \<open>
  A call of a class, \<^verbatim>\<open>cls(*args, **kwds)\<close>: it runs in the process, on the live
  registry and heap, and returns an instance or raises.
\<close>

type_synonym 'k constructor = "'k \<Rightarrow> call_args \<Rightarrow> 'k process \<Rightarrow> (exn + ref) \<times> 'k process"

section \<open>The metaclass Singleton\<close>

text \<open>
  Line 21, \<^verbatim>\<open>return self._instance[self]\<close>: a dictionary lookup, which raises
  \<^verbatim>\<open>KeyError\<close> on a missing key.
\<close>

definition instance_getitem :: "'k \<Rightarrow> 'k process \<Rightarrow> (exn + ref) \<times> 'k process" where
  "instance_getitem self s =
     (case Singleton_instance s self of
        None \<Rightarrow> (Inl KeyError, s)
      | Some obj \<Rightarrow> (Inr obj, s))"

text \<open>
  \<^verbatim>\<open>Singleton.__call__(self, *args, **kwds)\<close>, lines 18 to 21. The constructor
  \<open>ctor\<close> stands for \<^verbatim>\<open>super(Singleton, self).__call__\<close>. Line 19 tests the
  registry as the call finds it. Line 20 evaluates its right-hand side first: the
  constructor runs in the process, where the \<^verbatim>\<open>__init__\<close> of the class may itself
  call classes, and leaves the state \<open>t\<close>. When it raises, the exception leaves
  \<^verbatim>\<open>__call__\<close> before the assignment and \<open>t\<close> stays as it is. When it returns, the
  assignment stores into the registry of \<open>t\<close>, whether or not \<open>t\<close> has an entry for
  the class by now.
\<close>

definition Singleton_call :: "'k constructor \<Rightarrow> 'k constructor" where
  "Singleton_call ctor self a s =
     (if Singleton_instance s self = None
      then (case ctor self a s of
              (Inl e, t) \<Rightarrow> (Inl e, t)
            | (Inr obj, t) \<Rightarrow>
                instance_getitem self
                  (t\<lparr>Singleton_instance := (Singleton_instance t)(self \<mapsto> obj)\<rparr>))
      else instance_getitem self s)"

text \<open>
  A sequence of construction requests made one after another in one process. A request
  that raises is caught by its caller, and the process goes on with the state the request
  left.
\<close>

fun run ::
  "'k constructor \<Rightarrow> ('k \<times> call_args) list \<Rightarrow> 'k process \<Rightarrow> (exn + ref) list \<times> 'k process" where
  "run ctor [] s = ([], s)"
| "run ctor ((self, a) # cs) s =
     (case Singleton_call ctor self a s of
        (out, s1) \<Rightarrow> (case run ctor cs s1 of (outs, s2) \<Rightarrow> (out # outs, s2)))"

section \<open>The constructor of a class\<close>

text \<open>
  The body of an \<^verbatim>\<open>__init__\<close>, as far as it touches the process: it returns, it
  raises, it sets an attribute of the new object and goes on, it reads the process (the
  registry, the heap) and goes on according to what it finds, or it calls a class of the
  metaclass and goes on with what the call returned or raised (so it can keep the
  instance, let the exception through, or catch it).
\<close>

datatype 'k init =
    Return
  | Raise exn
  | SetAttr string pyval "'k init"
  | Read "'k process \<Rightarrow> 'k init"
  | Request 'k call_args "exn + ref \<Rightarrow> 'k init"

text \<open>
  What a class statement fixes of its constructor: its \<^verbatim>\<open>__init__\<close>, when it
  defines one, as a body for each argument pack. \<^verbatim>\<open>NetworkDriver\<close> (lines 24 to 28)
  defines none. No class defines \<^verbatim>\<open>__new__\<close> or an attribute \<^verbatim>\<open>_instance\<close> of
  its own.
\<close>

record 'k pyclass =
  dunder_init :: "(call_args \<Rightarrow> 'k init) option"

definition NetworkDriver_class :: "'k pyclass" where
  "NetworkDriver_class = \<lparr>dunder_init = None\<rparr>"

text \<open>
  \<^verbatim>\<open>object.__new__(cls, *args, **kwds)\<close>: a class that inherits
  \<^verbatim>\<open>object.__init__\<close> takes no arguments; otherwise a new object of the class is
  allocated, with a reference no other object has.
\<close>

definition object_new :: "('k \<Rightarrow> 'k pyclass) \<Rightarrow> 'k constructor" where
  "object_new classes cls a s =
     (if dunder_init (classes cls) = None \<and> has_args a then (Inl TypeError, s)
      else (Inr (length (objects (heap s))),
            s\<lparr>heap := (heap s)\<lparr>objects :=
                 objects (heap s) @ [\<lparr>ob_type = cls, ob_dict = []\<rparr>]\<rparr>\<rparr>))"

text \<open>\<^verbatim>\<open>self.name = v\<close> on the object with reference \<open>obj\<close>.\<close>

definition setattr :: "ref \<Rightarrow> string \<Rightarrow> pyval \<Rightarrow> 'k process \<Rightarrow> 'k process" where
  "setattr obj name v s =
     s\<lparr>heap := (heap s)\<lparr>objects := (objects (heap s))
          [obj := (objects (heap s) ! obj)
             \<lparr>ob_dict := (name, v) #
                filter (\<lambda>p. fst p \<noteq> name) (ob_dict (objects (heap s) ! obj))\<rparr>]\<rparr>\<rparr>"

text \<open>
  Running the body of \<^verbatim>\<open>__init__\<close> on the new object; \<open>req\<close> serves the calls of
  classes the body makes. The result is the exception the body raises, if any.
\<close>

primrec run_init ::
  "'k constructor \<Rightarrow> ref \<Rightarrow> 'k init \<Rightarrow> 'k process \<Rightarrow> exn option \<times> 'k process" where
  "run_init req obj Return = (\<lambda>s. (None, s))"
| "run_init req obj (Raise e) = (\<lambda>s. (Some e, s))"
| "run_init req obj (SetAttr name v body) = (\<lambda>s. run_init req obj body (setattr obj name v s))"
| "run_init req obj (Read body) = (\<lambda>s. run_init req obj (body s) s)"
| "run_init req obj (Request cls a body) =
     (\<lambda>s. case req cls a s of (out, t) \<Rightarrow> run_init req obj (body out) t)"

text \<open>
  \<^verbatim>\<open>type.__call__(cls, *args, **kwds)\<close>, the call
  \<^verbatim>\<open>super(Singleton, self).__call__(*args, **kwds)\<close> of line 20:
  \<^verbatim>\<open>__new__\<close>, then \<^verbatim>\<open>__init__\<close> on the new object.
\<close>

definition type_new_init :: "'k constructor \<Rightarrow> ('k \<Rightarrow> 'k pyclass) \<Rightarrow> 'k constructor" where
  "type_new_init req classes cls a s =
     (case object_new classes cls a s of
        (Inl e, s1) \<Rightarrow> (Inl e, s1)
      | (Inr obj, s1) \<Rightarrow>
          (case dunder_init (classes cls) of
             None \<Rightarrow> (Inr obj, s1)
           | Some init \<Rightarrow>
               (case run_init req obj (init a) s1 of
                  (Some e, s2) \<Rightarrow> (Inl e, s2)
                | (None, s2) \<Rightarrow> (Inr obj, s2))))"

text \<open>The same call with its run recorded in \<open>constructions\<close> when it ends.\<close>

definition record_construction ::
  "'k \<Rightarrow> call_args \<Rightarrow> exn + ref \<Rightarrow> 'k process \<Rightarrow> 'k process" where
  "record_construction cls a out s =
     s\<lparr>heap := (heap s)\<lparr>constructions := constructions (heap s) @ [(cls, a, out)]\<rparr>\<rparr>"

definition type_call :: "'k constructor \<Rightarrow> ('k \<Rightarrow> 'k pyclass) \<Rightarrow> 'k constructor" where
  "type_call req classes cls a s =
     (case type_new_init req classes cls a s of
        (out, t) \<Rightarrow> (out, record_construction cls a out t))"

text \<open>
  A call of a class made from inside an \<^verbatim>\<open>__init__\<close> goes through
  \<^verbatim>\<open>Singleton.__call__\<close> like any other. The number is the call depth the
  interpreter still allows: at depth zero the call raises \<^verbatim>\<open>RecursionError\<close>.
  \<open>constructor n classes\<close> is the constructor of line 20 for a call that has depth
  \<open>n\<close> left for the calls its \<^verbatim>\<open>__init__\<close> makes.
\<close>

primrec request :: "nat \<Rightarrow> ('k \<Rightarrow> 'k pyclass) \<Rightarrow> 'k constructor" where
  "request 0 classes = (\<lambda>cls a s. (Inl RecursionError, s))"
| "request (Suc n) classes = Singleton_call (type_call (request n classes) classes)"

definition constructor :: "nat \<Rightarrow> ('k \<Rightarrow> 'k pyclass) \<Rightarrow> 'k constructor" where
  "constructor n classes = type_call (request n classes) classes"





text \<open>
  The classes of the module, by name: \<^verbatim>\<open>NetworkDriver\<close>, and any further class
  written the same way.
\<close>

definition module_classes :: "string \<Rightarrow> string pyclass" where
  "module_classes name = NetworkDriver_class"

text \<open>
  \<^verbatim>\<open>create_singleton()\<close>, lines 31 to 35, under the interpreter's default depth
  limit; \<^verbatim>\<open>log\<close> only prints.
\<close>

definition create_singleton :: "string process \<Rightarrow> (exn + ref) \<times> string process" where
  "create_singleton s =
     Singleton_call (constructor 1000 module_classes) ''NetworkDriver'' no_args s"

section \<open>The currency factories\<close>

text \<open>
  \<^verbatim>\<open>FiatCurrencyFactory.create_country\<close> (lines 84 to 108) and
  \<^verbatim>\<open>VirtualCurrencyFactory.create_country\<close> (lines 122 to 149), as methods running
  in a process with state \<open>w\<close>: they return the label and the state they leave.
\<close>

datatype factory = FiatCurrencyFactory | VirtualCurrencyFactory

definition FiatCurrencyFactory_create_country :: "string \<Rightarrow> 'w \<Rightarrow> string \<times> 'w" where
  "FiatCurrencyFactory_create_country country w =
     (if country = ''USA'' then (''USD'', w)
      else if country = ''Spain'' then (''EUR'', w)
      else if country = ''Japan'' then (''JPY'', w)
      else (''Unknown Country'', w))"

definition VirtualCurrencyFactory_create_country :: "string \<Rightarrow> 'w \<Rightarrow> string \<times> 'w" where
  "VirtualCurrencyFactory_create_country country w =
     (if country = ''USA'' then (''Bitcoin'', w)
      else if country = ''Spain'' then (''Ethereum'', w)
      else if country = ''Japan'' then (''Dogecoin'', w)
      else (''Unknown Country'', w))"

text \<open>The call \<^verbatim>\<open>factory.create_country(country)\<close>, dispatched on the factory's class.\<close>

fun create_country :: "factory \<Rightarrow> string \<Rightarrow> 'w \<Rightarrow> string \<times> 'w" where
  "create_country FiatCurrencyFactory country w = FiatCurrencyFactory_create_country country w"
| "create_country VirtualCurrencyFactory country w = VirtualCurrencyFactory_create_country country w"

section \<open>Properties of calls used in the proofs\<close>

text \<open>A call keeps every entry of the registry it finds.\<close>

definition keeps_entries :: "'k constructor \<Rightarrow> bool" where
  "keeps_entries f =
     (\<forall>cls a s k r. Singleton_instance s k = Some r \<longrightarrow>
        Singleton_instance (snd (f cls a s)) k = Some r)"

text \<open>The runs recorded for a class.\<close>

definition runs_of :: "'k \<Rightarrow> 'k process \<Rightarrow> ('k \<times> call_args \<times> (exn + ref)) list" where
  "runs_of k s = filter (\<lambda>c. fst c = k) (constructions (heap s))"



text \<open>
  The heap only grows: objects are added and keep their class, runs are added to the record.
\<close>

definition extends :: "'k process \<Rightarrow> 'k process \<Rightarrow> bool" where
  "extends s t =
     (length (objects (heap s)) \<le> length (objects (heap t)) \<and>
      (\<forall>r < length (objects (heap s)).
         ob_type (objects (heap t) ! r) = ob_type (objects (heap s) ! r)) \<and>
      set (constructions (heap s)) \<subseteq> set (constructions (heap t)))"

definition grows :: "'k constructor \<Rightarrow> bool" where
  "grows f = (\<forall>cls a s. extends s (snd (f cls a s)))"

text \<open>
  Every entry of the registry is a live object of the class that is its key, returned by a
  recorded run of the constructor of that class.
\<close>

definition entries_ok :: "'k process \<Rightarrow> bool" where
  "entries_ok s =
     (\<forall>k r. Singleton_instance s k = Some r \<longrightarrow>
        r < length (objects (heap s)) \<and> ob_type (objects (heap s) ! r) = k \<and>
        (\<exists>a. (k, a, Inr r) \<in> set (constructions (heap s))))"

definition sound :: "'k constructor \<Rightarrow> bool" where
  "sound f = (\<forall>cls a s. entries_ok s \<longrightarrow> entries_ok (snd (f cls a s)))"

definition returns_instance :: "'k constructor \<Rightarrow> bool" where
  "returns_instance f =
     (\<forall>cls a s obj t. f cls a s = (Inr obj, t) \<longrightarrow>
        obj < length (objects (heap t)) \<and> ob_type (objects (heap t) ! obj) = cls \<and>
        (cls, a, Inr obj) \<in> set (constructions (heap t)))"




section \<open>Concrete classes and calls\<close>

text \<open>
  Arguments that \<^verbatim>\<open>NetworkDriver\<close> rejects, as in \<^verbatim>\<open>NetworkDriver(1)\<close> and
  \<^verbatim>\<open>NetworkDriver(port=8080)\<close>, and the process right after the first
  \<^verbatim>\<open>NetworkDriver()\<close>.
\<close>

definition one_arg :: call_args where
  "one_arg = \<lparr>args = [PyInt 1], kwds = []\<rparr>"

definition port_arg :: call_args where
  "port_arg = \<lparr>args = [], kwds = [(''port'', PyInt 8080)]\<rparr>"

definition driver_process :: "string process" where
  "driver_process =
     \<lparr>Singleton_instance = [''NetworkDriver'' \<mapsto> 0],
      heap = \<lparr>objects = [\<lparr>ob_type = ''NetworkDriver'', ob_dict = []\<rparr>],
              constructions = [(''NetworkDriver'', no_args, Inr 0)]\<rparr>\<rparr>"

text \<open>
  A class that uses the metaclass and whose \<^verbatim>\<open>__init__\<close> calls the class itself:
  \<^verbatim>\<open>
  class Node(metaclass=Singleton):
      def __init__(self, mode=None):
          if mode == "nest":
              self.inner = Node()
          elif mode == "nest-then-raise":
              Node()
              raise Exception("boom")
  \<close>
\<close>

definition nest_arg :: call_args where
  "nest_arg = \<lparr>args = [PyStr ''nest''], kwds = []\<rparr>"

definition nest_raise_arg :: call_args where
  "nest_raise_arg = \<lparr>args = [PyStr ''nest-then-raise''], kwds = []\<rparr>"

definition Node_init :: "call_args \<Rightarrow> string init" where
  "Node_init a =
     (if a = nest_arg
      then Request ''Node'' no_args
             (\<lambda>out. case out of Inl e \<Rightarrow> Raise e | Inr r \<Rightarrow> SetAttr ''inner'' (PyRef r) Return)
      else if a = nest_raise_arg
      then Request ''Node'' no_args
             (\<lambda>out. case out of Inl e \<Rightarrow> Raise e | Inr r \<Rightarrow> Raise (Raised ''boom''))
      else Return)"

definition Node_classes :: "string \<Rightarrow> string pyclass" where
  "Node_classes name = \<lparr>dunder_init = Some Node_init\<rparr>"

text \<open>The process in which the \<^verbatim>\<open>__init__\<close> of the first \<^verbatim>\<open>Node\<close> runs.\<close>

definition node_allocated :: "string process" where
  "node_allocated =
     \<lparr>Singleton_instance = Map.empty,
      heap = \<lparr>objects = [\<lparr>ob_type = ''Node'', ob_dict = []\<rparr>], constructions = []\<rparr>\<rparr>"

section \<open>The memoization gate\<close>

lemma Singleton_call_hit:
  "Singleton_instance s self = Some obj \<Longrightarrow> Singleton_call ctor self a s = (Inr obj, s)"
  by (simp add: Singleton_call_def instance_getitem_def)

lemma Singleton_call_miss_ok:
  "Singleton_instance s self = None \<Longrightarrow> ctor self a s = (Inr obj, t) \<Longrightarrow>
   Singleton_call ctor self a s =
     (Inr obj, t\<lparr>Singleton_instance := (Singleton_instance t)(self \<mapsto> obj)\<rparr>)"
  by (simp add: Singleton_call_def instance_getitem_def)

lemma Singleton_call_miss_raise:
  "Singleton_instance s self = None \<Longrightarrow> ctor self a s = (Inl e, t) \<Longrightarrow>
   Singleton_call ctor self a s = (Inl e, t)"
  by (simp add: Singleton_call_def)

lemma Singleton_call_cases:
  obtains (hit) obj where "Singleton_instance s self = Some obj"
      "Singleton_call ctor self a s = (Inr obj, s)"
  | (raise) e t where "Singleton_instance s self = None" "ctor self a s = (Inl e, t)"
      "Singleton_call ctor self a s = (Inl e, t)"
  | (store) obj t where "Singleton_instance s self = None" "ctor self a s = (Inr obj, t)"
      "Singleton_call ctor self a s =
         (Inr obj, t\<lparr>Singleton_instance := (Singleton_instance t)(self \<mapsto> obj)\<rparr>)"
proof (cases "Singleton_instance s self")
  case (Some obj)
  then have "Singleton_call ctor self a s = (Inr obj, s)"
    by (rule Singleton_call_hit)
  with Some show ?thesis by (rule hit)
next
  case None
  obtain out t where c: "ctor self a s = (out, t)" by (cases "ctor self a s")
  show ?thesis
  proof (cases out)
    case (Inl e)
    with c have c': "ctor self a s = (Inl e, t)" by simp
    with None have "Singleton_call ctor self a s = (Inl e, t)"
      by (rule Singleton_call_miss_raise)
    with None c' show ?thesis by (rule raise)
  next
    case (Inr obj)
    with c have c': "ctor self a s = (Inr obj, t)" by simp
    with None have "Singleton_call ctor self a s =
        (Inr obj, t\<lparr>Singleton_instance := (Singleton_instance t)(self \<mapsto> obj)\<rparr>)"
      by (rule Singleton_call_miss_ok)
    with None c' show ?thesis by (rule store)
  qed
qed

lemma Singleton_call_returns_stored:
  "Singleton_call ctor self a s = (Inr obj, t) \<Longrightarrow> Singleton_instance t self = Some obj"
  by (cases rule: Singleton_call_cases [of s self ctor a]) auto

text \<open>
  C1. A call of \<^verbatim>\<open>Singleton.__call__\<close> for a class that is absent from the registry
  runs the constructor with the arguments of the call, in the process of the call; the
  instance the constructor returns is stored under the class, in the state the constructor
  left, and is the value returned. For a class that is present the stored instance is
  returned, the state is left as it was, and neither the arguments nor the constructor
  matter.
\<close>

theorem get_or_create_behaviour:
  "(Singleton_instance s self = None \<longrightarrow>
      (\<forall>obj t. ctor self a s = (Inr obj, t) \<longrightarrow>
         Singleton_call ctor self a s =
           (Inr obj, t\<lparr>Singleton_instance := (Singleton_instance t)(self \<mapsto> obj)\<rparr>) \<and>
         Singleton_instance (snd (Singleton_call ctor self a s)) self = Some obj) \<and>
      heap (snd (Singleton_call ctor self a s)) = heap (snd (ctor self a s))) \<and>
   (\<forall>obj. Singleton_instance s self = Some obj \<longrightarrow>
      (\<forall>ctor' a'. Singleton_call ctor' self a' s = (Inr obj, s)))"
proof (intro conjI impI allI)
  fix obj t
  assume absent: "Singleton_instance s self = None" and ok: "ctor self a s = (Inr obj, t)"
  show "Singleton_call ctor self a s =
      (Inr obj, t\<lparr>Singleton_instance := (Singleton_instance t)(self \<mapsto> obj)\<rparr>)"
    using absent ok by (rule Singleton_call_miss_ok)
  then show "Singleton_instance (snd (Singleton_call ctor self a s)) self = Some obj"
    by simp
next
  assume absent: "Singleton_instance s self = None"
  obtain out t where c: "ctor self a s = (out, t)"
    by (cases "ctor self a s")
  show "heap (snd (Singleton_call ctor self a s)) = heap (snd (ctor self a s))"
  proof (cases out)
    case (Inl e)
    with absent c show ?thesis by (simp add: Singleton_call_miss_raise)
  next
    case (Inr obj)
    with absent c show ?thesis by (simp add: Singleton_call_miss_ok)
  qed
next
  fix obj ctor' a'
  assume "Singleton_instance s self = Some obj"
  then show "Singleton_call ctor' self a' s = (Inr obj, s)"
    by (rule Singleton_call_hit)
qed

theorem get_or_create_behaviour_witness:
  "Singleton_instance (init_process :: string process) ''NetworkDriver'' = None \<and>
   constructor 1000 module_classes ''NetworkDriver'' no_args init_process =
     (Inr 0, init_process\<lparr>heap := heap driver_process\<rparr>) \<and>
   Singleton_call (constructor 1000 module_classes) ''NetworkDriver'' no_args init_process =
     (Inr 0, driver_process) \<and>
   Singleton_instance driver_process ''NetworkDriver'' = Some 0 \<and>
   Singleton_call (constructor 1000 module_classes) ''NetworkDriver'' one_arg driver_process =
     (Inr 0, driver_process)"
proof -
  have absent: "Singleton_instance (init_process :: string process) ''NetworkDriver'' = None"
    by (simp add: init_process_def)
  have built: "constructor 1000 module_classes ''NetworkDriver'' no_args init_process =
      (Inr 0, init_process\<lparr>heap := heap driver_process\<rparr>)"
    by (simp add: constructor_def type_call_def type_new_init_def object_new_def
        record_construction_def module_classes_def NetworkDriver_class_def no_args_def
        has_args_def init_process_def driver_process_def)
  have same: "(init_process :: string process)\<lparr>heap := heap driver_process,
      Singleton_instance := (Singleton_instance
        ((init_process :: string process)\<lparr>heap := heap driver_process\<rparr>))
          (''NetworkDriver'' \<mapsto> 0)\<rparr> = driver_process"
    by (simp add: init_process_def driver_process_def)
  have present: "Singleton_instance driver_process ''NetworkDriver'' = Some 0"
    by (simp add: driver_process_def)
  from get_or_create_behaviour [of init_process "''NetworkDriver''"
      "constructor 1000 module_classes" no_args] absent built same
  have first: "Singleton_call (constructor 1000 module_classes) ''NetworkDriver'' no_args
      init_process = (Inr 0, driver_process)"
    by simp
  from get_or_create_behaviour [of driver_process "''NetworkDriver''"
      "constructor 1000 module_classes" no_args] present
  have later: "Singleton_call (constructor 1000 module_classes) ''NetworkDriver'' one_arg
      driver_process = (Inr 0, driver_process)"
    by simp
  from absent built first present later show ?thesis by simp
qed

section \<open>Errors\<close>

text \<open>
  C5. A call raises exactly when the class is absent from the registry and the constructor,
  run with the arguments of the call, raises; the exception of the call is then the
  constructor's own, and the state is the one the constructor left. The registry checks no
  argument and raises nothing of its own: the \<^verbatim>\<open>KeyError\<close> of line 21 cannot occur.
\<close>

theorem constructor_error_propagates:
  "(fst (Singleton_call ctor self a s) = Inl e) =
     (Singleton_instance s self = None \<and> fst (ctor self a s) = Inl e) \<and>
   (Singleton_instance s self = None \<and> fst (ctor self a s) = Inl e \<longrightarrow>
      Singleton_call ctor self a s = (Inl e, snd (ctor self a s)))"
proof (cases rule: Singleton_call_cases [of s self ctor a])
  case (hit obj)
  then show ?thesis by simp
next
  case (raise e' t)
  then show ?thesis by auto
next
  case (store obj t)
  then show ?thesis by simp
qed

theorem constructor_error_propagates_witness:
  "Singleton_instance (init_process :: string process) ''NetworkDriver'' = None \<and>
   fst (constructor 1000 module_classes ''NetworkDriver'' one_arg init_process) = Inl TypeError \<and>
   Singleton_call (constructor 1000 module_classes) ''NetworkDriver'' one_arg init_process =
     (Inl TypeError,
      \<lparr>Singleton_instance = Map.empty,
       heap = \<lparr>objects = [], constructions = [(''NetworkDriver'', one_arg, Inl TypeError)]\<rparr>\<rparr>)"
proof -
  have absent: "Singleton_instance (init_process :: string process) ''NetworkDriver'' = None"
    by (simp add: init_process_def)
  have raises: "constructor 1000 module_classes ''NetworkDriver'' one_arg init_process =
      (Inl TypeError,
       \<lparr>Singleton_instance = Map.empty,
        heap = \<lparr>objects = [],
                constructions = [(''NetworkDriver'', one_arg, Inl TypeError)]\<rparr>\<rparr>)"
    by (simp add: constructor_def type_call_def type_new_init_def object_new_def
        record_construction_def module_classes_def NetworkDriver_class_def one_arg_def
        has_args_def init_process_def)
  from constructor_error_propagates [of "constructor 1000 module_classes" "''NetworkDriver''"
      one_arg init_process TypeError] absent raises
  have "Singleton_call (constructor 1000 module_classes) ''NetworkDriver'' one_arg init_process =
      (Inl TypeError,
       \<lparr>Singleton_instance = Map.empty,
        heap = \<lparr>objects = [],
                constructions = [(''NetworkDriver'', one_arg, Inl TypeError)]\<rparr>\<rparr>)"
    by simp
  with absent raises show ?thesis by simp
qed

section \<open>Entries are kept\<close>

lemma Singleton_instance_setattr [simp]:
  "Singleton_instance (setattr obj name v s) = Singleton_instance s"
  by (simp add: setattr_def)

lemma constructions_setattr [simp]:
  "constructions (heap (setattr obj name v s)) = constructions (heap s)"
  by (simp add: setattr_def)

lemma length_objects_setattr [simp]:
  "length (objects (heap (setattr obj name v s))) = length (objects (heap s))"
  by (simp add: setattr_def)

lemma ob_type_setattr [simp]:
  "r < length (objects (heap s)) \<Longrightarrow>
   ob_type (objects (heap (setattr obj name v s)) ! r) = ob_type (objects (heap s) ! r)"
  by (cases "r = obj") (simp_all add: setattr_def)

lemma Singleton_instance_object_new [simp]:
  "Singleton_instance (snd (object_new classes cls a s)) = Singleton_instance s"
  by (simp add: object_new_def)


lemma Singleton_instance_record_construction [simp]:
  "Singleton_instance (record_construction cls a out s) = Singleton_instance s"
  by (simp add: record_construction_def)

lemma objects_record_construction [simp]:
  "objects (heap (record_construction cls a out s)) = objects (heap s)"
  by (simp add: record_construction_def)

lemma constructions_record_construction [simp]:
  "constructions (heap (record_construction cls a out s)) =
     constructions (heap s) @ [(cls, a, out)]"
  by (simp add: record_construction_def)

lemma keeps_entriesD:
  "keeps_entries f \<Longrightarrow> Singleton_instance s k = Some r \<Longrightarrow>
   Singleton_instance (snd (f cls a s)) k = Some r"
  unfolding keeps_entries_def by blast

lemma run_init_keeps:
  "keeps_entries req \<Longrightarrow> Singleton_instance s k = Some r \<Longrightarrow>
   Singleton_instance (snd (run_init req obj body s)) k = Some r"
proof (induction body arbitrary: s)
  case Return
  then show ?case by simp
next
  case (Raise e)
  then show ?case by simp
next
  case (SetAttr name v body)
  from SetAttr.prems(2) have "Singleton_instance (setattr obj name v s) k = Some r" by simp
  with SetAttr.prems(1)
  have "Singleton_instance (snd (run_init req obj body (setattr obj name v s))) k = Some r"
    by (rule SetAttr.IH)
  then show ?case by simp
next
  case (Read body)
  from Read.prems
  have "Singleton_instance (snd (run_init req obj (body s) s)) k = Some r"
    by (rule Read.IH [OF rangeI])
  then show ?case by simp
next
  case (Request cls a body)
  obtain out t where c: "req cls a s = (out, t)" by (cases "req cls a s")
  from Request.prems have "Singleton_instance (snd (req cls a s)) k = Some r"
    by (rule keeps_entriesD)
  with c have "Singleton_instance t k = Some r" by simp
  with Request.prems(1)
  have "Singleton_instance (snd (run_init req obj (body out) t)) k = Some r"
    by (rule Request.IH [OF rangeI])
  with c show ?case by simp
qed

lemma Singleton_instance_type_call:
  "Singleton_instance (snd (type_call req classes cls a s)) =
     Singleton_instance (snd (type_new_init req classes cls a s))"
  by (simp add: type_call_def split: prod.splits)

lemma type_new_init_state:
  "snd (type_new_init req classes cls a s) =
     (case object_new classes cls a s of
        (Inl e, s1) \<Rightarrow> s1
      | (Inr obj, s1) \<Rightarrow>
          (case dunder_init (classes cls) of
             None \<Rightarrow> s1
           | Some init \<Rightarrow> snd (run_init req obj (init a) s1)))"
  by (simp add: type_new_init_def split: prod.splits sum.splits option.splits)

lemma type_new_init_keeps:
  assumes "keeps_entries req" and "Singleton_instance s k = Some r"
  shows "Singleton_instance (snd (type_new_init req classes cls a s)) k = Some r"
proof -
  obtain out1 s1 where n: "object_new classes cls a s = (out1, s1)"
    by (cases "object_new classes cls a s")
  then have "Singleton_instance s1 = Singleton_instance s"
    using Singleton_instance_object_new [of classes cls a s] by simp
  with assms(2) have s1: "Singleton_instance s1 k = Some r" by simp
  have "Singleton_instance (snd (run_init req obj (init a) s1)) k = Some r" for obj init
    using assms(1) s1 by (rule run_init_keeps)
  with n s1 show ?thesis
    by (simp add: type_new_init_state split: sum.splits option.splits)
qed

lemma type_call_keeps: "keeps_entries req \<Longrightarrow> keeps_entries (type_call req classes)"
  unfolding keeps_entries_def [of "type_call req classes"]
  by (simp add: Singleton_instance_type_call type_new_init_keeps)

lemma Singleton_call_keeps:
  fixes ctor :: "'k constructor"
  assumes "keeps_entries ctor"
  shows "keeps_entries (Singleton_call ctor)"
  unfolding keeps_entries_def [of "Singleton_call ctor"]
proof (intro allI impI)
  fix self a and s :: "'k process" and k r
  assume k: "Singleton_instance s k = Some r"
  show "Singleton_instance (snd (Singleton_call ctor self a s)) k = Some r"
  proof (cases rule: Singleton_call_cases [of s self ctor a])
    case (hit obj)
    with k show ?thesis by simp
  next
    case (raise e t)
    from assms k have "Singleton_instance (snd (ctor self a s)) k = Some r"
      by (rule keeps_entriesD)
    with raise show ?thesis by simp
  next
    case (store obj t)
    from assms k have "Singleton_instance (snd (ctor self a s)) k = Some r"
      by (rule keeps_entriesD)
    moreover from store(1) k have "k \<noteq> self" by auto
    ultimately show ?thesis using store by simp
  qed
qed

lemma request_keeps: "keeps_entries (request n classes)"
proof (induction n)
  case 0
  show ?case by (simp add: keeps_entries_def)
next
  case (Suc n)
  then have "keeps_entries (type_call (request n classes) classes)"
    by (rule type_call_keeps)
  then show ?case by (simp add: Singleton_call_keeps)
qed

lemma constructor_keeps: "keeps_entries (constructor n classes)"
  unfolding constructor_def using request_keeps by (rule type_call_keeps)


section \<open>Sequences of requests\<close>

lemma run_Cons:
  "run ctor ((self, a) # cs) s =
     (fst (Singleton_call ctor self a s) # fst (run ctor cs (snd (Singleton_call ctor self a s))),
      snd (run ctor cs (snd (Singleton_call ctor self a s))))"
  by (simp split: prod.splits)

lemma run_keeps:
  "keeps_entries ctor \<Longrightarrow> Singleton_instance s k = Some r \<Longrightarrow>
   Singleton_instance (snd (run ctor cs s)) k = Some r"
proof (induction cs arbitrary: s)
  case Nil
  then show ?case by simp
next
  case (Cons c cs)
  obtain self a where c: "c = (self, a)" by (cases c)
  from Cons.prems(1) have "keeps_entries (Singleton_call ctor)"
    by (rule Singleton_call_keeps)
  then have "Singleton_instance (snd (Singleton_call ctor self a s)) k = Some r"
    using Cons.prems(2) by (rule keeps_entriesD)
  with Cons.prems(1)
  have "Singleton_instance (snd (run ctor cs (snd (Singleton_call ctor self a s)))) k = Some r"
    by (rule Cons.IH)
  then show ?case using c by (simp add: run_Cons del: run.simps)
qed



lemma run_out_stored:
  "keeps_entries ctor \<Longrightarrow> i < length cs \<Longrightarrow> fst (run ctor cs s) ! i = Inr r \<Longrightarrow>
   Singleton_instance (snd (run ctor cs s)) (fst (cs ! i)) = Some r"
proof (induction cs arbitrary: s i)
  case Nil
  then show ?case by simp
next
  case (Cons c cs)
  obtain self a where c: "c = (self, a)" by (cases c)
  define t where "t = snd (Singleton_call ctor self a s)"
  show ?case
  proof (cases i)
    case 0
    with Cons.prems c have "fst (Singleton_call ctor self a s) = Inr r"
      by (simp add: run_Cons del: run.simps)
    then have "Singleton_call ctor self a s = (Inr r, t)"
      by (simp add: t_def prod_eq_iff)
    then have "Singleton_instance t self = Some r"
      by (rule Singleton_call_returns_stored)
    with Cons.prems(1) have "Singleton_instance (snd (run ctor cs t)) self = Some r"
      by (rule run_keeps)
    with 0 c show ?thesis by (simp add: run_Cons t_def del: run.simps)
  next
    case (Suc i')
    with Cons.prems c have "i' < length cs" "fst (run ctor cs t) ! i' = Inr r"
      by (simp_all add: run_Cons t_def del: run.simps)
    with Cons.prems(1)
    have "Singleton_instance (snd (run ctor cs t)) (fst (cs ! i')) = Some r"
      by (rule Cons.IH)
    with Suc c show ?thesis by (simp add: run_Cons t_def del: run.simps)
  qed
qed

lemmas call_defs =
  Singleton_call_def instance_getitem_def constructor_def type_call_def type_new_init_def
  object_new_def record_construction_def setattr_def has_args_def no_args_def one_arg_def
  port_arg_def init_process_def

lemmas module_defs = module_classes_def NetworkDriver_class_def driver_process_def

lemmas Node_defs = Node_classes_def Node_init_def nest_arg_def nest_raise_arg_def
  node_allocated_def




text \<open>
  C6. Once a call for a class has returned its instance, every later call for the class,
  after any further requests and whatever the classes requested do in their
  \<^verbatim>\<open>__init__\<close>, returns that instance and leaves the state as it is, for every
  argument pack and every constructor, also one that would raise on these arguments: the
  arguments do not reach the constructor.
\<close>

theorem later_calls_never_fail:
  assumes "Singleton_call ctor self b s = (Inr obj, t)"
    and "run (constructor n classes) cs t = (outs, u)"
  shows "Singleton_call ctor' self a u = (Inr obj, u)"
proof -
  from assms(1) have "Singleton_instance t self = Some obj"
    by (rule Singleton_call_returns_stored)
  with constructor_keeps
  have "Singleton_instance (snd (run (constructor n classes) cs t)) self = Some obj"
    by (rule run_keeps)
  with assms(2) have "Singleton_instance u self = Some obj" by simp
  then show ?thesis by (rule Singleton_call_hit)
qed

theorem later_calls_never_fail_witness:
  "Singleton_call (constructor 1000 module_classes) ''NetworkDriver'' no_args init_process =
     (Inr 0, driver_process) \<and>
   run (constructor 1000 module_classes) [(''NetworkDriver'', one_arg)] driver_process =
     ([Inr 0], driver_process) \<and>
   fst (constructor 1000 module_classes ''NetworkDriver'' port_arg driver_process) =
     Inl TypeError \<and>
   Singleton_call (constructor 1000 module_classes) ''NetworkDriver'' port_arg driver_process =
     (Inr 0, driver_process)"
proof -
  have first: "Singleton_call (constructor 1000 module_classes) ''NetworkDriver'' no_args
      init_process = (Inr 0, driver_process)"
    by (simp add: call_defs module_defs)
  have rest: "run (constructor 1000 module_classes) [(''NetworkDriver'', one_arg)]
      driver_process = ([Inr 0], driver_process)"
    by (simp add: call_defs module_defs)
  have rejected:
    "fst (constructor 1000 module_classes ''NetworkDriver'' port_arg driver_process) =
       Inl TypeError"
    by (simp add: call_defs module_defs)
  from later_calls_never_fail [where ctor = "constructor 1000 module_classes"
      and ctor' = "constructor 1000 module_classes" and self = "''NetworkDriver''"
      and b = no_args and s = init_process and a = port_arg and n = 1000
      and classes = module_classes, OF first rest]
  have "Singleton_call (constructor 1000 module_classes) ''NetworkDriver'' port_arg
      driver_process = (Inr 0, driver_process)" .
  with first rest rejected show ?thesis by simp
qed

section \<open>A constructor that calls no class\<close>




section \<open>Growth of the registry\<close>




section \<open>A constructor that raises\<close>




section \<open>No construction for a class that has its entry\<close>

lemma runs_of_setattr [simp]: "runs_of k (setattr obj name v s) = runs_of k s"
  by (simp add: runs_of_def)


lemma runs_of_record_construction [simp]:
  "runs_of k (record_construction cls a out s) =
     runs_of k s @ (if cls = k then [(cls, a, out)] else [])"
  by (simp add: runs_of_def)

lemma runs_of_store [simp]:
  "runs_of k (s\<lparr>Singleton_instance := m\<rparr>) = runs_of k s"
  by (simp add: runs_of_def)










section \<open>Every entry is an instance of its class\<close>

lemma extends_refl: "extends s s"
  by (simp add: extends_def)

lemma extends_trans: "extends s t \<Longrightarrow> extends t u \<Longrightarrow> extends s u"
  unfolding extends_def by (auto simp: subset_iff)

lemma extends_setattr: "extends s (setattr obj name v s)"
  by (simp add: extends_def)

lemma extends_object_new: "extends s (snd (object_new classes cls a s))"
  by (simp add: extends_def object_new_def nth_append)

lemma extends_record_construction: "extends s (record_construction cls a out s)"
  by (auto simp: extends_def)

lemma extends_store: "extends s (s\<lparr>Singleton_instance := m\<rparr>)"
  by (simp add: extends_def)

lemma growsD: "grows f \<Longrightarrow> extends s (snd (f cls a s))"
  unfolding grows_def by blast

lemma run_init_grows: "grows req \<Longrightarrow> extends s (snd (run_init req obj body s))"
proof (induction body arbitrary: s)
  case Return
  show ?case by (simp add: extends_refl)
next
  case (Raise e)
  show ?case by (simp add: extends_refl)
next
  case (SetAttr name v body)
  have "extends s (setattr obj name v s)" by (rule extends_setattr)
  moreover have "extends (setattr obj name v s)
      (snd (run_init req obj body (setattr obj name v s)))"
    using SetAttr.prems by (rule SetAttr.IH)
  ultimately show ?case using extends_trans by simp
next
  case (Read body)
  from Read.prems have "extends s (snd (run_init req obj (body s) s))"
    by (rule Read.IH [OF rangeI])
  then show ?case by simp
next
  case (Request cls a body)
  obtain out t where c: "req cls a s = (out, t)" by (cases "req cls a s")
  from Request.prems have "extends s (snd (req cls a s))" by (rule growsD)
  with c have "extends s t" by simp
  moreover have "extends t (snd (run_init req obj (body out) t))"
    using Request.prems by (rule Request.IH [OF rangeI])
  ultimately have "extends s (snd (run_init req obj (body out) t))"
    by (rule extends_trans)
  with c show ?case by simp
qed

lemma type_new_init_grows:
  assumes "grows req"
  shows "extends s (snd (type_new_init req classes cls a s))"
proof -
  obtain out1 s1 where n: "object_new classes cls a s = (out1, s1)"
    by (cases "object_new classes cls a s")
  have s1: "extends s s1"
    using extends_object_new [of s classes cls a] n by simp
  have "extends s (snd (run_init req obj (init a) s1))" for obj init
    using s1 run_init_grows [OF assms] by (rule extends_trans)
  with n s1 show ?thesis
    by (simp add: type_new_init_state split: sum.splits option.splits)
qed

lemma type_call_state:
  "snd (type_call req classes cls a s) =
     record_construction cls a (fst (type_new_init req classes cls a s))
       (snd (type_new_init req classes cls a s))"
  by (simp add: type_call_def split: prod.splits)

lemma type_call_grows:
  fixes req :: "'k constructor"
  assumes "grows req"
  shows "grows (type_call req classes)"
  unfolding grows_def
proof (intro allI)
  fix cls :: 'k and a and s :: "'k process"
  have "extends s (snd (type_new_init req classes cls a s))"
    using assms by (rule type_new_init_grows)
  then show "extends s (snd (type_call req classes cls a s))"
    unfolding type_call_state using extends_record_construction by (rule extends_trans)
qed

lemma Singleton_call_grows:
  fixes ctor :: "'k constructor"
  assumes "grows ctor"
  shows "grows (Singleton_call ctor)"
  unfolding grows_def
proof (intro allI)
  fix self a and s :: "'k process"
  have ext: "extends s (snd (ctor self a s))" using assms by (rule growsD)
  show "extends s (snd (Singleton_call ctor self a s))"
  proof (cases rule: Singleton_call_cases [of s self ctor a])
    case (hit obj)
    then show ?thesis by (simp add: extends_refl)
  next
    case (raise e t)
    with ext show ?thesis by simp
  next
    case (store obj t)
    with ext have "extends s t" by simp
    then have "extends s (t\<lparr>Singleton_instance := (Singleton_instance t)(self \<mapsto> obj)\<rparr>)"
      using extends_store by (rule extends_trans)
    with store show ?thesis by simp
  qed
qed

lemma request_grows: "grows (request n classes)"
proof (induction n)
  case 0
  show ?case by (simp add: grows_def extends_refl)
next
  case (Suc n)
  then have "grows (type_call (request n classes) classes)" by (rule type_call_grows)
  then show ?case by (simp add: Singleton_call_grows)
qed

lemma extends_live:
  "extends s t \<Longrightarrow> r < length (objects (heap s)) \<Longrightarrow>
   r < length (objects (heap t)) \<and> ob_type (objects (heap t) ! r) = ob_type (objects (heap s) ! r)"
  unfolding extends_def by auto

lemma object_new_live:
  "object_new classes cls a s = (Inr obj, t) \<Longrightarrow>
   obj < length (objects (heap t)) \<and> ob_type (objects (heap t) ! obj) = cls"
  by (auto simp: object_new_def split: if_splits)

lemma type_new_init_live:
  assumes "grows req" and "type_new_init req classes cls a s = (Inr obj, t)"
  shows "obj < length (objects (heap t)) \<and> ob_type (objects (heap t) ! obj) = cls"
proof -
  obtain out1 s1 where n: "object_new classes cls a s = (out1, s1)"
    by (cases "object_new classes cls a s")
  show ?thesis
  proof (cases out1)
    case (Inl e)
    with n assms(2) show ?thesis by (simp add: type_new_init_def)
  next
    case (Inr obj1)
    with n have live: "obj1 < length (objects (heap s1)) \<and>
        ob_type (objects (heap s1) ! obj1) = cls"
      by (simp add: object_new_live)
    show ?thesis
    proof (cases "dunder_init (classes cls)")
      case None
      with n Inr assms(2) live show ?thesis by (simp add: type_new_init_def)
    next
      case (Some init)
      obtain res s2 where i: "run_init req obj1 (init a) s1 = (res, s2)"
        by (cases "run_init req obj1 (init a) s1")
      from assms(1) have "extends s1 (snd (run_init req obj1 (init a) s1))"
        by (rule run_init_grows)
      with i have "extends s1 s2" by simp
      with live have "obj1 < length (objects (heap s2)) \<and>
          ob_type (objects (heap s2) ! obj1) = cls"
        using extends_live [of s1 s2 obj1] by simp
      with n Inr Some i assms(2) show ?thesis
        by (cases res) (simp_all add: type_new_init_def)
    qed
  qed
qed

lemma type_call_returns_instance:
  fixes req :: "'k constructor"
  assumes "grows req"
  shows "returns_instance (type_call req classes)"
  unfolding returns_instance_def
proof (intro allI impI)
  fix cls :: 'k and a and s :: "'k process" and obj t
  assume c: "type_call req classes cls a s = (Inr obj, t)"
  obtain out u where n: "type_new_init req classes cls a s = (out, u)"
    by (cases "type_new_init req classes cls a s")
  with c have out: "out = Inr obj" and t: "t = record_construction cls a (Inr obj) u"
    by (auto simp: type_call_def)
  from assms n out have "obj < length (objects (heap u)) \<and> ob_type (objects (heap u) ! obj) = cls"
    by (simp add: type_new_init_live)
  with t show "obj < length (objects (heap t)) \<and> ob_type (objects (heap t) ! obj) = cls \<and>
      (cls, a, Inr obj) \<in> set (constructions (heap t))"
    by simp
qed

lemma returns_instanceD:
  "returns_instance f \<Longrightarrow> f cls a s = (Inr obj, t) \<Longrightarrow>
   obj < length (objects (heap t)) \<and> ob_type (objects (heap t) ! obj) = cls \<and>
   (cls, a, Inr obj) \<in> set (constructions (heap t))"
  unfolding returns_instance_def by blast

lemma entries_okD:
  "entries_ok s \<Longrightarrow> Singleton_instance s k = Some r \<Longrightarrow>
   r < length (objects (heap s)) \<and> ob_type (objects (heap s) ! r) = k \<and>
   (\<exists>a. (k, a, Inr r) \<in> set (constructions (heap s)))"
  unfolding entries_ok_def by blast

lemma entries_ok_extends:
  assumes "entries_ok s" and "extends s t" and "Singleton_instance t = Singleton_instance s"
  shows "entries_ok t"
  unfolding entries_ok_def
proof (intro allI impI)
  fix k r
  assume "Singleton_instance t k = Some r"
  with assms(3) have "Singleton_instance s k = Some r" by simp
  with assms(1) have e: "r < length (objects (heap s)) \<and> ob_type (objects (heap s) ! r) = k \<and>
      (\<exists>a. (k, a, Inr r) \<in> set (constructions (heap s)))"
    by (rule entries_okD)
  with assms(2) have "r < length (objects (heap t)) \<and> ob_type (objects (heap t) ! r) = k"
    using extends_live [of s t r] by simp
  moreover from e assms(2) have "\<exists>a. (k, a, Inr r) \<in> set (constructions (heap t))"
    unfolding extends_def by blast
  ultimately show "r < length (objects (heap t)) \<and> ob_type (objects (heap t) ! r) = k \<and>
      (\<exists>a. (k, a, Inr r) \<in> set (constructions (heap t)))"
    by simp
qed

lemma soundD: "sound f \<Longrightarrow> entries_ok s \<Longrightarrow> entries_ok (snd (f cls a s))"
  unfolding sound_def by blast

lemma run_init_sound:
  "sound req \<Longrightarrow> entries_ok s \<Longrightarrow> entries_ok (snd (run_init req obj body s))"
proof (induction body arbitrary: s)
  case Return
  then show ?case by simp
next
  case (Raise e)
  then show ?case by simp
next
  case (SetAttr name v body)
  from SetAttr.prems(2) have "entries_ok (setattr obj name v s)"
    using extends_setattr by (rule entries_ok_extends) simp
  with SetAttr.prems(1)
  have "entries_ok (snd (run_init req obj body (setattr obj name v s)))"
    by (rule SetAttr.IH)
  then show ?case by simp
next
  case (Read body)
  from Read.prems have "entries_ok (snd (run_init req obj (body s) s))"
    by (rule Read.IH [OF rangeI])
  then show ?case by simp
next
  case (Request cls a body)
  obtain out t where c: "req cls a s = (out, t)" by (cases "req cls a s")
  from Request.prems have "entries_ok (snd (req cls a s))" by (rule soundD)
  with c have "entries_ok t" by simp
  with Request.prems(1) have "entries_ok (snd (run_init req obj (body out) t))"
    by (rule Request.IH [OF rangeI])
  with c show ?case by simp
qed

lemma type_new_init_sound:
  assumes "sound req" and "entries_ok s"
  shows "entries_ok (snd (type_new_init req classes cls a s))"
proof -
  obtain out1 s1 where n: "object_new classes cls a s = (out1, s1)"
    by (cases "object_new classes cls a s")
  have "entries_ok (snd (object_new classes cls a s))"
    using assms(2) extends_object_new by (rule entries_ok_extends) simp
  with n have s1: "entries_ok s1" by simp
  have "entries_ok (snd (run_init req obj (init a) s1))" for obj init
    using assms(1) s1 by (rule run_init_sound)
  with n s1 show ?thesis
    by (simp add: type_new_init_state split: sum.splits option.splits)
qed

lemma type_call_sound:
  fixes req :: "'k constructor"
  assumes "sound req"
  shows "sound (type_call req classes)"
  unfolding sound_def
proof (intro allI impI)
  fix cls :: 'k and a and s :: "'k process"
  assume "entries_ok s"
  with assms have "entries_ok (snd (type_new_init req classes cls a s))"
    by (rule type_new_init_sound)
  then show "entries_ok (snd (type_call req classes cls a s))"
    unfolding type_call_state using extends_record_construction
    by (rule entries_ok_extends) simp
qed

lemma Singleton_call_sound:
  fixes ctor :: "'k constructor"
  assumes "sound ctor" and "returns_instance ctor"
  shows "sound (Singleton_call ctor)"
  unfolding sound_def
proof (intro allI impI)
  fix self a and s :: "'k process"
  assume ok: "entries_ok s"
  with assms(1) have left: "entries_ok (snd (ctor self a s))" by (rule soundD)
  show "entries_ok (snd (Singleton_call ctor self a s))"
  proof (cases rule: Singleton_call_cases [of s self ctor a])
    case (hit obj)
    with ok show ?thesis by simp
  next
    case (raise e t)
    with left show ?thesis by simp
  next
    case (store obj t)
    with left have t: "entries_ok t" by simp
    from assms(2) store(2) have new: "obj < length (objects (heap t)) \<and>
        ob_type (objects (heap t) ! obj) = self \<and>
        (self, a, Inr obj) \<in> set (constructions (heap t))"
      by (rule returns_instanceD)
    have "entries_ok (t\<lparr>Singleton_instance := (Singleton_instance t)(self \<mapsto> obj)\<rparr>)"
      unfolding entries_ok_def
    proof (intro allI impI)
      fix k r
      assume e: "Singleton_instance
          (t\<lparr>Singleton_instance := (Singleton_instance t)(self \<mapsto> obj)\<rparr>) k = Some r"
      let ?u = "t\<lparr>Singleton_instance := (Singleton_instance t)(self \<mapsto> obj)\<rparr>"
      show "r < length (objects (heap ?u)) \<and> ob_type (objects (heap ?u) ! r) = k \<and>
          (\<exists>a. (k, a, Inr r) \<in> set (constructions (heap ?u)))"
      proof (cases "k = self")
        case True
        with e have "r = obj" by simp
        with True new show ?thesis by auto
      next
        case False
        with e have "Singleton_instance t k = Some r" by simp
        with t show ?thesis using entries_okD [of t k r] by simp
      qed
    qed
    with store show ?thesis by simp
  qed
qed

lemma request_sound: "sound (request n classes)"
proof (induction n)
  case 0
  show ?case by (simp add: sound_def)
next
  case (Suc n)
  then have "sound (type_call (request n classes) classes)" by (rule type_call_sound)
  moreover have "returns_instance (type_call (request n classes) classes)"
    using request_grows by (rule type_call_returns_instance)
  ultimately show ?case by (simp add: Singleton_call_sound)
qed

lemma call_sound: "sound (Singleton_call (constructor n classes))"
  using request_sound [of "Suc n" classes] by (simp add: constructor_def)

lemma run_sound:
  "entries_ok s \<Longrightarrow> entries_ok (snd (run (constructor n classes) cs s))"
proof (induction cs arbitrary: s)
  case Nil
  then show ?case by simp
next
  case (Cons c cs)
  obtain self a where c: "c = (self, a)" by (cases c)
  from call_sound Cons.prems
  have "entries_ok (snd (Singleton_call (constructor n classes) self a s))"
    by (rule soundD)
  then have "entries_ok (snd (run (constructor n classes) cs
      (snd (Singleton_call (constructor n classes) self a s))))"
    by (rule Cons.IH)
  with c show ?case by (simp add: run_Cons del: run.simps)
qed

lemma entries_ok_init: "entries_ok init_process"
  by (simp add: entries_ok_def init_process_def)

section \<open>A class whose constructor calls no class is constructed once\<close>













section \<open>One instance for each class\<close>




text \<open>
  C4. In a process that starts with an empty registry and constructs by
  \<^verbatim>\<open>type.__call__\<close>, whatever the classes do in their \<^verbatim>\<open>__init__\<close>, two calls
  for different classes never return the same reference, and no two classes share an
  entry of the registry.
\<close>

theorem distinct_classes_distinct_instances:
  assumes "run (constructor n classes) cs init_process = (outs, s)"
  shows "(\<forall>i j ri rj. i < length cs \<and> j < length cs \<and> fst (cs ! i) \<noteq> fst (cs ! j) \<and>
            outs ! i = Inr ri \<and> outs ! j = Inr rj \<longrightarrow> ri \<noteq> rj) \<and>
         (\<forall>k1 k2 r1 r2. k1 \<noteq> k2 \<and> Singleton_instance s k1 = Some r1 \<and>
            Singleton_instance s k2 = Some r2 \<longrightarrow> r1 \<noteq> r2)"
proof -
  have "entries_ok (snd (run (constructor n classes) cs (init_process :: 'a process)))"
    using entries_ok_init by (rule run_sound)
  with assms have ok: "entries_ok s" by simp
  have entries: "r1 \<noteq> r2"
    if "k1 \<noteq> k2" "Singleton_instance s k1 = Some r1" "Singleton_instance s k2 = Some r2"
    for k1 k2 r1 r2
  proof
    assume "r1 = r2"
    moreover from ok that(2) have "ob_type (objects (heap s) ! r1) = k1"
      by (simp add: entries_okD)
    moreover from ok that(3) have "ob_type (objects (heap s) ! r2) = k2"
      by (simp add: entries_okD)
    ultimately show False using that(1) by simp
  qed
  have stored: "Singleton_instance s (fst (cs ! i)) = Some r"
    if "i < length cs" "outs ! i = Inr r" for i r
    using run_out_stored [OF constructor_keeps, of i cs n classes init_process r] that assms
    by simp
  have calls: "ri \<noteq> rj"
    if "i < length cs \<and> j < length cs \<and> fst (cs ! i) \<noteq> fst (cs ! j) \<and>
      outs ! i = Inr ri \<and> outs ! j = Inr rj" for i j ri rj
  proof -
    from that have "Singleton_instance s (fst (cs ! i)) = Some ri"
      by (simp add: stored)
    moreover from that have "Singleton_instance s (fst (cs ! j)) = Some rj"
      by (simp add: stored)
    moreover from that have "fst (cs ! i) \<noteq> fst (cs ! j)" by simp
    ultimately show ?thesis using entries by blast
  qed
  from entries calls show ?thesis by blast
qed

theorem distinct_classes_distinct_instances_witness:
  "run (constructor (Suc 0) Node_classes)
     [(''Node'', nest_arg), (''Other'', no_args), (''Node'', no_args)] init_process =
   ([Inr 0, Inr 2, Inr 0],
    \<lparr>Singleton_instance = [''Node'' \<mapsto> 0, ''Other'' \<mapsto> 2],
     heap = \<lparr>objects = [\<lparr>ob_type = ''Node'', ob_dict = [(''inner'', PyRef 1)]\<rparr>,
                         \<lparr>ob_type = ''Node'', ob_dict = []\<rparr>,
                         \<lparr>ob_type = ''Other'', ob_dict = []\<rparr>],
             constructions = [(''Node'', no_args, Inr 1), (''Node'', nest_arg, Inr 0),
                              (''Other'', no_args, Inr 2)]\<rparr>\<rparr>) \<and>
   ''Other'' \<noteq> ''Node'' \<and> (2::nat) \<noteq> 0"
proof -
  let ?cs = "[(''Node'', nest_arg), (''Other'', no_args), (''Node'', no_args)]"
  let ?s = "\<lparr>Singleton_instance = [''Node'' \<mapsto> 0, ''Other'' \<mapsto> 2],
     heap = \<lparr>objects = [\<lparr>ob_type = ''Node'', ob_dict = [(''inner'', PyRef 1)]\<rparr>,
                         \<lparr>ob_type = ''Node'', ob_dict = []\<rparr>,
                         \<lparr>ob_type = ''Other'', ob_dict = []\<rparr>],
             constructions = [(''Node'', no_args, Inr 1), (''Node'', nest_arg, Inr 0),
                              (''Other'', no_args, Inr 2)]\<rparr>\<rparr> :: string process"
  have r: "run (constructor (Suc 0) Node_classes) ?cs init_process = ([Inr 0, Inr 2, Inr 0], ?s)"
    by (simp add: call_defs Node_defs numeral_2_eq_2)
  have hyp: "1 < length ?cs \<and> 2 < length ?cs \<and> fst (?cs ! 1) \<noteq> fst (?cs ! 2) \<and>
      [Inr 0, Inr 2, Inr 0] ! 1 = (Inr 2 :: exn + ref) \<and>
      [Inr 0, Inr 2, Inr 0] ! 2 = (Inr 0 :: exn + ref)"
    by simp
  from distinct_classes_distinct_instances [OF r] hyp have "(2::nat) \<noteq> 0"
    by blast
  with r show ?thesis by simp
qed

text \<open>
  C10. The registry is the one dictionary \<^verbatim>\<open>Singleton._instance\<close> of the process,
  keyed by the class. In a process that starts with an empty registry and constructs by
  \<^verbatim>\<open>type.__call__\<close>, whatever the classes do in their \<^verbatim>\<open>__init__\<close>, the entry
  of every class is a live object of that class, which a run of the constructor of that
  class returned; and the reference a call returns is the entry of the class called, an
  instance of that class.
\<close>

theorem registry_values_instances_of_key:
  assumes "run (constructor n classes) cs init_process = (outs, s)"
  shows "(\<forall>k obj. Singleton_instance s k = Some obj \<longrightarrow>
            obj < length (objects (heap s)) \<and> ob_type (objects (heap s) ! obj) = k \<and>
            (\<exists>a. (k, a, Inr obj) \<in> set (constructions (heap s)))) \<and>
         (\<forall>i r. i < length cs \<and> outs ! i = Inr r \<longrightarrow>
            Singleton_instance s (fst (cs ! i)) = Some r \<and>
            ob_type (objects (heap s) ! r) = fst (cs ! i))"
proof -
  have "entries_ok (snd (run (constructor n classes) cs (init_process :: 'a process)))"
    using entries_ok_init by (rule run_sound)
  with assms have ok: "entries_ok s" by simp
  have entry: "obj < length (objects (heap s)) \<and> ob_type (objects (heap s) ! obj) = k \<and>
      (\<exists>a. (k, a, Inr obj) \<in> set (constructions (heap s)))"
    if "Singleton_instance s k = Some obj" for k obj
    using ok that by (rule entries_okD)
  have call: "Singleton_instance s (fst (cs ! i)) = Some r \<and>
      ob_type (objects (heap s) ! r) = fst (cs ! i)"
    if "i < length cs \<and> outs ! i = Inr r" for i r
  proof -
    from that assms have "Singleton_instance s (fst (cs ! i)) = Some r"
      using run_out_stored [OF constructor_keeps, of i cs n classes init_process r] by simp
    with entry show ?thesis by simp
  qed
  from entry call show ?thesis by blast
qed

theorem registry_values_instances_of_key_witness:
  "run (constructor (Suc 0) Node_classes) [(''Node'', nest_arg), (''Other'', no_args)]
     init_process =
   ([Inr 0, Inr 2],
    \<lparr>Singleton_instance = [''Node'' \<mapsto> 0, ''Other'' \<mapsto> 2],
     heap = \<lparr>objects = [\<lparr>ob_type = ''Node'', ob_dict = [(''inner'', PyRef 1)]\<rparr>,
                         \<lparr>ob_type = ''Node'', ob_dict = []\<rparr>,
                         \<lparr>ob_type = ''Other'', ob_dict = []\<rparr>],
             constructions = [(''Node'', no_args, Inr 1), (''Node'', nest_arg, Inr 0),
                              (''Other'', no_args, Inr 2)]\<rparr>\<rparr>) \<and>
   ob_type ([\<lparr>ob_type = ''Node'', ob_dict = [(''inner'', PyRef 1)]\<rparr>,
             \<lparr>ob_type = ''Node'', ob_dict = []\<rparr>,
             \<lparr>ob_type = ''Other'', ob_dict = []\<rparr>] ! 0) = ''Node'' \<and>
   (\<exists>a. (''Node'', a, Inr 0) \<in>
      set [(''Node'', no_args, Inr 1), (''Node'', nest_arg, Inr 0),
           (''Other'', no_args, Inr (2::nat) :: exn + nat)])"
proof -
  let ?cs = "[(''Node'', nest_arg), (''Other'', no_args)]"
  let ?s = "\<lparr>Singleton_instance = [''Node'' \<mapsto> 0, ''Other'' \<mapsto> 2],
     heap = \<lparr>objects = [\<lparr>ob_type = ''Node'', ob_dict = [(''inner'', PyRef 1)]\<rparr>,
                         \<lparr>ob_type = ''Node'', ob_dict = []\<rparr>,
                         \<lparr>ob_type = ''Other'', ob_dict = []\<rparr>],
             constructions = [(''Node'', no_args, Inr 1), (''Node'', nest_arg, Inr 0),
                              (''Other'', no_args, Inr 2)]\<rparr>\<rparr> :: string process"
  have r: "run (constructor (Suc 0) Node_classes) ?cs init_process = ([Inr 0, Inr 2], ?s)"
    by (simp add: call_defs Node_defs numeral_2_eq_2)
  have present: "Singleton_instance ?s ''Node'' = Some 0" by simp
  from registry_values_instances_of_key [OF r] present
  have "ob_type (objects (heap ?s) ! 0) = ''Node'' \<and>
      (\<exists>a. (''Node'', a, Inr 0) \<in> set (constructions (heap ?s)))"
    by blast
  with r show ?thesis by simp
qed

lemma create_singleton_thrice:
  "create_singleton init_process = (Inr 0, driver_process) \<and>
   create_singleton driver_process = (Inr 0, driver_process)"
  by (simp add: create_singleton_def call_defs module_defs)

section \<open>The factories share no state\<close>

text \<open>
  C8. \<^verbatim>\<open>FiatCurrencyFactory.create_country\<close> and
  \<^verbatim>\<open>VirtualCurrencyFactory.create_country\<close> are functions of the input label alone:
  called in any two process states, whatever calls came before, each returns the same label
  for the same input, and each leaves the state it was called in exactly as it was. The
  same holds of the call dispatched on the factory.
\<close>

theorem create_country_pure:
  "FiatCurrencyFactory_create_country country w =
     (fst (FiatCurrencyFactory_create_country country w'), w) \<and>
   VirtualCurrencyFactory_create_country country w =
     (fst (VirtualCurrencyFactory_create_country country w'), w) \<and>
   create_country f country w = (fst (create_country f country w'), w)"
proof -
  have fiat: "FiatCurrencyFactory_create_country country w =
      (fst (FiatCurrencyFactory_create_country country w'), w)"
    by (simp add: FiatCurrencyFactory_create_country_def)
  have virtual: "VirtualCurrencyFactory_create_country country w =
      (fst (VirtualCurrencyFactory_create_country country w'), w)"
    by (simp add: VirtualCurrencyFactory_create_country_def)
  have "create_country f country w = (fst (create_country f country w'), w)"
    by (cases f)
      (simp_all add: FiatCurrencyFactory_create_country_def
        VirtualCurrencyFactory_create_country_def)
  with fiat virtual show ?thesis by simp
qed

lemma create_country_examples:
  "fst (create_country FiatCurrencyFactory ''USA'' w) = ''USD'' \<and>
   fst (create_country FiatCurrencyFactory ''Spain'' w) = ''EUR'' \<and>
   fst (create_country FiatCurrencyFactory ''Japan'' w) = ''JPY'' \<and>
   fst (create_country VirtualCurrencyFactory ''USA'' w) = ''Bitcoin'' \<and>
   fst (create_country VirtualCurrencyFactory ''Spain'' w) = ''Ethereum'' \<and>
   fst (create_country VirtualCurrencyFactory ''Japan'' w) = ''Dogecoin'' \<and>
   fst (create_country f ''France'' w) = ''Unknown Country''"
  by (cases f)
    (simp_all add: FiatCurrencyFactory_create_country_def
      VirtualCurrencyFactory_create_country_def)

end
